theory Spec2Isabelle
  imports Main "HOL-Library.AList"
begin

section \<open>The syntax tree walked by \<open>SemanticErrorChecker\<close>\<close>

text \<open>
  \<open>SemanticErrorChecker\<close> (identical in \<open>analyze_new.py\<close> and \<open>test2.py\<close>) is a
  \<open>pycparser\<close> \<open>NodeVisitor\<close>. It has methods for three node classes only, \<open>Decl\<close>,
  \<open>ID\<close> and \<open>FuncCall\<close>, and it inspects two more, \<open>TypeDecl\<close> and \<open>FuncDecl\<close>, through
  \<open>isinstance\<close>. These five are constructors of their own; every other node class
  (\<open>FileAST\<close>, \<open>FuncDef\<close>, \<open>Compound\<close>, \<open>Assignment\<close>, \<open>Constant\<close>, \<open>Typename\<close>, ...) is a
  \<open>Node\<close> carrying its class name and its children in iteration order, which is all that
  \<open>generic_visit\<close> reads of it.

  \<open>FuncDecl.args\<close> is \<open>None\<close> or a \<open>ParamList\<close>, \<open>FuncCall.args\<close> is \<open>None\<close> or an
  \<open>ExprList\<close>; the visitor reads \<open>args.params\<close> and \<open>args.exprs\<close> and has no method for
  either wrapper, so each is kept as the optional list of its elements. \<open>Decl.name\<close> is
  \<open>None\<close> for a declaration without a declarator.
\<close>

datatype node =
    Decl (decl_name: "string option") (decl_type: node)
         (decl_init: "node option") (decl_bitsize: "node option")
  | TypeDecl (typedecl_declname: "string option") (typedecl_type: node)
  | FuncDecl (funcdecl_args: "node list option") (funcdecl_type: node)
  | ID (id_name: string)
  | FuncCall (funccall_name: node) (funccall_args: "node list option")
  | Node (class_name: string) (node_children: "node list")

fun opt_children :: "node option \<Rightarrow> node list" where
  "opt_children None = []"
| "opt_children (Some c) = [c]"

fun seq_children :: "node list option \<Rightarrow> node list" where
  "seq_children None = []"
| "seq_children (Some cs) = cs"

text \<open>The children of a node in the order in which iterating over the node yields them
  (\<open>Decl\<close>: type, init, bitsize; \<open>FuncDecl\<close>: args, type; \<open>FuncCall\<close>: name, args).\<close>

fun children :: "node \<Rightarrow> node list" where
  "children (Decl name ty init bitsize) = ty # opt_children init @ opt_children bitsize"
| "children (TypeDecl dname ty) = [ty]"
| "children (FuncDecl args ty) = seq_children args @ [ty]"
| "children (ID name) = []"
| "children (FuncCall name args) = name # seq_children args"
| "children (Node cls cs) = cs"

fun is_TypeDecl :: "node \<Rightarrow> bool" where
  "is_TypeDecl (TypeDecl dname ty) = True"
| "is_TypeDecl n = False"

fun is_FuncDecl :: "node \<Rightarrow> bool" where
  "is_FuncDecl (FuncDecl args ty) = True"
| "is_FuncDecl n = False"

fun is_ID :: "node \<Rightarrow> bool" where
  "is_ID (ID name) = True"
| "is_ID n = False"

section \<open>The checker's state and its messages\<close>

text \<open>
  The two dictionaries are association lists updated with \<open>AList.update\<close>: a new key goes
  to the end and an existing key keeps its place, which is the order
  \<open>defined_vars.items()\<close> iterates in. The keys are \<open>Decl.name\<close> values, hence optional.
\<close>

record checker =
  defined_vars :: "(string option \<times> bool) list"
  function_signatures :: "(string option \<times> nat) list"
  errors :: "string list"

definition init_checker :: checker where
  "init_checker = \<lparr>defined_vars = [], function_signatures = [], errors = []\<rparr>"

text \<open>Decimal digits of a natural number, as \<open>str\<close> prints an \<open>int\<close>.\<close>

fun str_nat :: "nat \<Rightarrow> string" where
  "str_nat n =
     (if n < 10 then [''0123456789'' ! n]
      else str_nat (n div 10) @ [''0123456789'' ! (n mod 10)])"

text \<open>What an f-string prints for a dictionary key: the name, or \<open>None\<close>.\<close>

fun str_name :: "string option \<Rightarrow> string" where
  "str_name None = ''None''"
| "str_name (Some name) = name"

definition quoted :: "string \<Rightarrow> string" where
  "quoted s = CHR 0x27 # s @ [CHR 0x27]"

definition msg_undeclared :: "string \<Rightarrow> string" where
  "msg_undeclared var_name =
     ''Error: Variable '' @ quoted var_name @ '' used before declaration.''"

definition msg_arity :: "string \<Rightarrow> nat \<Rightarrow> nat \<Rightarrow> string" where
  "msg_arity func_name actual_args expected_args =
     ''Error: Function '' @ quoted func_name @ '' called with '' @ str_nat actual_args
       @ '' arguments (expected '' @ str_nat expected_args @ '').''"

definition msg_unused :: "string option \<Rightarrow> string" where
  "msg_unused var =
     ''Warning: Variable '' @ quoted (str_name var) @ '' defined but never used.''"

definition msg_parse :: "string \<Rightarrow> string" where
  "msg_parse e = ''Error in parsing code with pycparser: '' @ e"

section \<open>The visitor\<close>

text \<open>The statements of \<open>visit_Decl\<close>, \<open>visit_ID\<close> and \<open>visit_FuncCall\<close> that run before
  each method's closing call of \<open>generic_visit\<close>.\<close>

definition visit_Decl_stmts :: "node \<Rightarrow> checker \<Rightarrow> checker" where
  "visit_Decl_stmts node s =
     (if is_TypeDecl (decl_type node) then
        s\<lparr>defined_vars := AList.update (decl_name node) False (defined_vars s)\<rparr>
      else if is_FuncDecl (decl_type node) then
        (let func_name = decl_name node;
             arg_count = (case funcdecl_args (decl_type node) of
                            Some params \<Rightarrow> length params
                          | None \<Rightarrow> 0)
         in s\<lparr>function_signatures := AList.update func_name arg_count (function_signatures s)\<rparr>)
      else s)"

definition visit_ID_stmts :: "node \<Rightarrow> checker \<Rightarrow> checker" where
  "visit_ID_stmts node s =
     (let var_name = id_name node in
      if Some var_name \<in> fst ` set (defined_vars s) then
        s\<lparr>defined_vars := AList.update (Some var_name) True (defined_vars s)\<rparr>
      else
        s\<lparr>errors := errors s @ [msg_undeclared var_name]\<rparr>)"

definition visit_FuncCall_stmts :: "node \<Rightarrow> checker \<Rightarrow> checker" where
  "visit_FuncCall_stmts node s =
     (if is_ID (funccall_name node) then
        (let func_name = id_name (funccall_name node) in
         case map_of (function_signatures s) (Some func_name) of
           None \<Rightarrow> s
         | Some expected_args \<Rightarrow>
             (let actual_args = (case funccall_args node of
                                   Some exprs \<Rightarrow> length exprs
                                 | None \<Rightarrow> 0)
              in if actual_args \<noteq> expected_args then
                   s\<lparr>errors := errors s @ [msg_arity func_name actual_args expected_args]\<rparr>
                 else s))
      else s)"

text \<open>\<open>visit\<close> dispatches on the node's class to \<open>visit_<Class>\<close> where the checker has
  that method and to \<open>generic_visit\<close> otherwise; \<open>generic_visit\<close> visits the children in
  order. These are the methods on a call stack without limit; the limit comes in below,
  with \<open>call_method\<close>.\<close>

function visit :: "node \<Rightarrow> checker \<Rightarrow> checker"
  and visit_Decl :: "node \<Rightarrow> checker \<Rightarrow> checker"
  and visit_ID :: "node \<Rightarrow> checker \<Rightarrow> checker"
  and visit_FuncCall :: "node \<Rightarrow> checker \<Rightarrow> checker"
  and generic_visit :: "node \<Rightarrow> checker \<Rightarrow> checker"
where
  "visit node s =
     (case node of
        Decl name ty init bitsize \<Rightarrow> visit_Decl node s
      | ID name \<Rightarrow> visit_ID node s
      | FuncCall name args \<Rightarrow> visit_FuncCall node s
      | _ \<Rightarrow> generic_visit node s)"
| "visit_Decl node s = generic_visit node (visit_Decl_stmts node s)"
| "visit_ID node s = generic_visit node (visit_ID_stmts node s)"
| "visit_FuncCall node s = generic_visit node (visit_FuncCall_stmts node s)"
| "generic_visit node s = fold visit (children node) s"
  by pat_completeness auto
termination
proof -
  have mem: "size c < Suc (size_list size cs)" if "c \<in> set cs" for c :: node and cs
    using that by (induction cs) auto
  have opt: "size c < Suc (size_option size x)" if "c \<in> set (opt_children x)" for c x
    using that by (cases x) auto
  have seq: "size c < Suc (size_option (size_list size) x)" if "c \<in> set (seq_children x)"
    for c x
    using that by (cases x) (auto dest: mem)
  have smaller: "size c < size n" if "c \<in> set (children n)" for c n
    using that by (cases n) (auto dest: mem opt seq)
  show ?thesis
    by (relation "measure (\<lambda>x. case x of
          Inl (Inl (n, s)) \<Rightarrow> 3 * size n + 2
        | Inl (Inr (n, s)) \<Rightarrow> 3 * size n + 1
        | Inr (Inl (n, s)) \<Rightarrow> 3 * size n + 1
        | Inr (Inr (Inl (n, s))) \<Rightarrow> 3 * size n + 1
        | Inr (Inr (Inr (n, s))) \<Rightarrow> 3 * size n)")
       (auto dest!: smaller)
qed

text \<open>The list comprehension of \<open>check_unused_vars\<close>: the keys whose flag is false, in the
  dictionary's order.\<close>

definition unused_vars :: "checker \<Rightarrow> string option list" where
  "unused_vars s = map fst (filter (\<lambda>(var, used). \<not> used) (defined_vars s))"

definition check_unused_vars :: "checker \<Rightarrow> checker" where
  "check_unused_vars s = s\<lparr>errors := errors s @ map msg_unused (unused_vars s)\<rparr>"

text \<open>What \<open>check_code\<close> returns once the parser has built \<open>ast\<close> and the traversal has
  run to its end: \<open>self.visit(ast)\<close>, \<open>self.check_unused_vars()\<close>, \<open>return self.errors\<close>,
  on a fresh checker.\<close>

definition check_ast :: "node \<Rightarrow> string list" where
  "check_ast ast = errors (check_unused_vars (visit ast init_checker))"

section \<open>The collaborators and the process's output\<close>

text \<open>
  The code reaches three collaborators outside the repository: the \<open>clang\<close> executable run
  by \<open>subprocess.run\<close> with \<open>check=True\<close>, \<open>pycparser\<close>'s \<open>CParser.parse\<close>, and \<open>libclang\<close>
  (\<open>Index.create\<close> and \<open>index.parse\<close>). Each is a parameter of the model, with every way
  it can end as a value: an exception is the \<open>Inl\<close> of its message.

  The interpreter's call stack is a parameter as well: \<open>frames\<close> is the number of nested
  calls it still allows at the point where \<open>check_code\<close> calls \<open>self.visit\<close> and
  \<open>clang_analysis\<close> calls \<open>traverse_ast\<close> (both two calls below \<open>analyze_code\<close>), and
  \<open>recursion_error\<close> is the message of the \<open>RecursionError\<close> raised by a call beyond it.
\<close>

datatype completed_process =
    Completed string
  | CalledProcessError string
  | OtherException string

record location =
  loc_file :: "string option"
  loc_line :: nat
  loc_column :: nat

datatype cursor_kind = DECL_REF_EXPR | OTHER_KIND string

text \<open>A cursor of \<open>clang.cindex\<close> with the attributes the code names or could name: the
  class has \<open>displayname\<close> and no attribute \<open>display_name\<close>.\<close>

datatype cursor =
  Cursor (kind: cursor_kind) (referenced: "cursor option") (displayname: string)
         (location: location) (get_children: "cursor list")

record env =
  subprocess_run :: "string list \<Rightarrow> completed_process"
  parser_parse :: "string \<Rightarrow> string + node"
  index_parse :: "string \<Rightarrow> string list \<Rightarrow> string + cursor"
  frames :: nat
  recursion_error :: string

text \<open>What the process has done so far: the arguments of its \<open>print\<close> calls, and the calls
  \<open>analyze_code\<close> has made to the three stages, both in order.\<close>

datatype call =
    Preprocess_code string "string list option"
  | Check_code string
  | Clang_analysis string

record world =
  stdout :: "string list"
  invoked :: "call list"

definition new_world :: world where
  "new_world = \<lparr>stdout = [], invoked = []\<rparr>"

definition print :: "string \<Rightarrow> world \<Rightarrow> world" where
  "print text w = w\<lparr>stdout := stdout w @ [text]\<rparr>"

definition print_all :: "string list \<Rightarrow> world \<Rightarrow> world" where
  "print_all lines w = fold print lines w"

definition invoke :: "call \<Rightarrow> world \<Rightarrow> world" where
  "invoke c w = w\<lparr>invoked := invoked w @ [c]\<rparr>"

section \<open>The visitor on the interpreter's call stack\<close>

text \<open>
  The methods of the visitor call each other recursively, one chain of calls per path of
  the tree. Every call takes a frame, and a call with no frame left raises
  \<open>RecursionError\<close>, which leaves every pending call. \<open>call_method e n m node s\<close> is the
  call of method \<open>m\<close> of the checker on \<open>node\<close> with \<open>n\<close> frames left.
\<close>

datatype visitor_method = Visit | Visit_Decl | Visit_ID | Visit_FuncCall | Generic_visit

text \<open>A \<open>for\<close> loop whose body may raise: the first exception ends it.\<close>

fun for_each :: "('a \<Rightarrow> 's \<Rightarrow> string + 's) \<Rightarrow> 'a list \<Rightarrow> 's \<Rightarrow> string + 's" where
  "for_each body [] s = Inr s"
| "for_each body (x # xs) s =
     (case body x s of
        Inl exn \<Rightarrow> Inl exn
      | Inr s' \<Rightarrow> for_each body xs s')"

primrec call_method :: "env \<Rightarrow> nat \<Rightarrow> visitor_method \<Rightarrow> node \<Rightarrow> checker \<Rightarrow> string + checker" where
  "call_method e 0 m node s = Inl (recursion_error e)"
| "call_method e (Suc n) m node s =
     (case m of
        Visit \<Rightarrow>
          (case node of
             Decl name ty init bitsize \<Rightarrow> call_method e n Visit_Decl node s
           | ID name \<Rightarrow> call_method e n Visit_ID node s
           | FuncCall name args \<Rightarrow> call_method e n Visit_FuncCall node s
           | _ \<Rightarrow> call_method e n Generic_visit node s)
      | Visit_Decl \<Rightarrow> call_method e n Generic_visit node (visit_Decl_stmts node s)
      | Visit_ID \<Rightarrow> call_method e n Generic_visit node (visit_ID_stmts node s)
      | Visit_FuncCall \<Rightarrow> call_method e n Generic_visit node (visit_FuncCall_stmts node s)
      | Generic_visit \<Rightarrow> for_each (call_method e n Visit) (children node) s)"

text \<open>\<open>self.visit(node)\<close> with \<open>n\<close> frames left.\<close>

definition limited_visit :: "env \<Rightarrow> nat \<Rightarrow> node \<Rightarrow> checker \<Rightarrow> string + checker" where
  "limited_visit e n node s = call_method e n Visit node s"

text \<open>The frames the visit of a tree takes at its deepest: three for a node with a method
  of its own (\<open>visit\<close>, \<open>visit_<Class>\<close>, \<open>generic_visit\<close>), two for any other node, on top
  of what the deepest child takes.\<close>

fun own_frames :: "node \<Rightarrow> nat" where
  "own_frames (Decl name ty init bitsize) = 3"
| "own_frames (ID name) = 3"
| "own_frames (FuncCall name args) = 3"
| "own_frames n = 2"

function frames_needed :: "node \<Rightarrow> nat" where
  "frames_needed node = own_frames node + fold max (map frames_needed (children node)) 0"
  by pat_completeness auto
termination
proof -
  have mem: "size c < Suc (size_list size cs)" if "c \<in> set cs" for c :: node and cs
    using that by (induction cs) auto
  have opt: "size c < Suc (size_option size x)" if "c \<in> set (opt_children x)" for c x
    using that by (cases x) auto
  have seq: "size c < Suc (size_option (size_list size) x)" if "c \<in> set (seq_children x)"
    for c x
    using that by (cases x) (auto dest: mem)
  have smaller: "size c < size n" if "c \<in> set (children n)" for c n
    using that by (cases n) (auto dest: mem opt seq)
  show ?thesis
    by (relation "measure size") (auto dest!: smaller)
qed

section \<open>\<open>check_code\<close>\<close>

text \<open>The \<open>try\<close> block holds the parser's call, \<open>self.visit(ast)\<close> and
  \<open>self.check_unused_vars()\<close>; whatever exception leaves it is answered with the single
  parse message. No statement of the visitor raises on a tree of type \<open>node\<close> but a call
  beyond the stack's limit.\<close>

definition check_code :: "env \<Rightarrow> string \<Rightarrow> string list" where
  "check_code e code =
     (case parser_parse e code of
        Inr ast \<Rightarrow>
          (case limited_visit e (frames e) ast init_checker of
             Inr s \<Rightarrow> errors (check_unused_vars s)
           | Inl exn \<Rightarrow> [msg_parse exn])
      | Inl exn \<Rightarrow> [msg_parse exn])"

section \<open>\<open>clang_analysis\<close>\<close>

text \<open>For a \<open>DECL_REF_EXPR\<close> whose \<open>referenced\<close> is \<open>None\<close>, \<open>traverse_ast\<close> builds the
  message from \<open>node.display_name\<close>. A cursor has no such attribute, so evaluating the
  f-string raises \<open>AttributeError\<close> before anything is appended; the exception leaves
  \<open>traverse_ast\<close> and \<open>clang_analysis\<close>, which catch nothing.\<close>

definition attribute_error :: string where
  "attribute_error =
     [CHR 0x27] @ ''Cursor'' @ [CHR 0x27] @ '' object has no attribute ''
       @ [CHR 0x27] @ ''display_name'' @ [CHR 0x27]"

primrec traverse_ast :: "env \<Rightarrow> nat \<Rightarrow> cursor \<Rightarrow> string list \<Rightarrow> string + string list" where
  "traverse_ast e 0 node errs = Inl (recursion_error e)"
| "traverse_ast e (Suc n) node errs =
     (if kind node = DECL_REF_EXPR \<and> referenced node = None then Inl attribute_error
      else for_each (traverse_ast e n) (get_children node) errs)"

definition clang_analysis :: "env \<Rightarrow> string \<Rightarrow> string + string list" where
  "clang_analysis e file =
     (case index_parse e file [''-Wall'', ''-fsyntax-only''] of
        Inl exn \<Rightarrow> Inl exn
      | Inr translation_unit \<Rightarrow> traverse_ast e (frames e) translation_unit [])"

section \<open>\<open>preprocess_code\<close> and \<open>analyze_code\<close>\<close>

text \<open>The command line \<open>["clang"] + clang_flags\<close>.\<close>

definition clang_argv :: "string \<Rightarrow> string list option \<Rightarrow> string list" where
  "clang_argv file_path include_dirs =
     ''clang'' # [''-fms-extensions'', ''-E'', file_path]
       @ (case include_dirs of
            None \<Rightarrow> []
          | Some dirs \<Rightarrow> map (\<lambda>include_dir. ''-I'' @ include_dir) dirs)"

text \<open>\<open>preprocess_code\<close> catches \<open>CalledProcessError\<close> only: it returns \<open>None\<close> then, the
  preprocessed text when \<open>clang\<close> exits with 0, and lets any other exception through.\<close>

definition preprocess_code ::
  "env \<Rightarrow> string \<Rightarrow> string list option \<Rightarrow> world \<Rightarrow> (string + string option) \<times> world" where
  "preprocess_code e file_path include_dirs w =
     (case subprocess_run e (clang_argv file_path include_dirs) of
        Completed out \<Rightarrow> (Inr (Some out), w)
      | CalledProcessError err \<Rightarrow> (Inr None, print (''Preprocessing failed: '' @ err) w)
      | OtherException exn \<Rightarrow> (Inl exn, w))"

text \<open>The last directory is written in the source as an ordinary string literal, in which
  \<open>\b\<close> is the backspace character and the other backslashes stand for themselves.\<close>

definition include_dirs :: "string list" where
  "include_dirs =
     [''C:/Program Files (x86)/Microsoft Visual Studio/VC/include'',
      ''C:/Program Files/LLVM/lib/clang/19/include'',
      ''C:/mingw/include'',
      ''C:'' @ [CHR 0x5C] @ ''Program Files'' @ [CHR 0x5C] @ ''LLVM'' @ [CHR 0x08] @ ''in''
        @ [CHR 0x5C] @ ''clang-include-fixer.exe'']"

text \<open>\<open>analyze_code\<close> of \<open>analyze_new.py\<close>. The first component of the result is \<open>Inr ()\<close>
  when the function returns and \<open>Inl\<close> of the exception that leaves it otherwise.\<close>

definition analyze_code :: "env \<Rightarrow> string \<Rightarrow> world \<Rightarrow> (string + unit) \<times> world" where
  "analyze_code e c_file w =
     (let w1 = print (''Analyzing: '' @ c_file @ [CHR 0x0A]) w;
          w2 = print ''Preprocessing code for pycparser...'' w1;
          (preprocessed_code, w3) =
             preprocess_code e c_file (Some include_dirs)
               (invoke (Preprocess_code c_file (Some include_dirs)) w2) in
      case preprocessed_code of
        Inl exn \<Rightarrow> (Inl exn, w3)
      | Inr None \<Rightarrow> (Inr (), print ''Failed to preprocess the code.'' w3)
      | Inr (Some code) \<Rightarrow>
          (let w4 = print ''pycparser Analysis:'' w3;
               pycparser_errors = check_code e code;
               w5 = invoke (Check_code code) w4;
               w6 = (if pycparser_errors = [] then print ''No issues found by pycparser.'' w5
                     else print_all pycparser_errors w5);
               w7 = print (CHR 0x0A # ''Clang Analysis:'') w6;
               w8 = invoke (Clang_analysis c_file) w7 in
           case clang_analysis e c_file of
             Inl exn \<Rightarrow> (Inl exn, w8)
           | Inr clang_errors \<Rightarrow>
               (let w9 = (if clang_errors = [] then print ''No issues found by Clang.'' w8
                          else print_all clang_errors w8)
                in (Inr (), print (CHR 0x0A # ''Analysis Complete.'' @ [CHR 0x0A]) w9))))"

section \<open>The external check of \<open>test2.py\<close>\<close>

text \<open>\<open>test2.py\<close> runs \<open>clang\<close> through \<open>os.popen\<close>, taken as the parameter \<open>popen_read\<close>
  (the command's output, or the exception's message), inside \<open>try\<close> ... \<open>except Exception\<close>.\<close>

definition clang_command :: "string \<Rightarrow> string" where
  "clang_command file_path =
     ''clang -I '' @ [CHR 0x22] @ ''C:'' @ [CHR 0x5C] @ ''MinGW'' @ [CHR 0x5C] @ ''include''
       @ [CHR 0x22] @ '' -I '' @ [CHR 0x22] @ ''C:'' @ [CHR 0x5C] @ ''MinGW'' @ [CHR 0x5C]
       @ ''lib'' @ [CHR 0x5C] @ ''gcc'' @ [CHR 0x5C] @ ''x86_64-w64-mingw32'' @ [CHR 0x5C]
       @ ''6.3.0'' @ [CHR 0x22] @ '' -fsyntax-only '' @ [CHR 0x22] @ file_path @ [CHR 0x22]"

definition test2_clang_analysis ::
  "(string \<Rightarrow> string + string) \<Rightarrow> string \<Rightarrow> world \<Rightarrow> world" where
  "test2_clang_analysis popen_read file_path w =
     (case popen_read (clang_command file_path) of
        Inr result \<Rightarrow>
          (if result \<noteq> [] then print result (print '' Semantic Check Errors:'' w)
           else print '' Semantic Check: No errors found.'' w)
      | Inl exn \<Rightarrow> print (''Error running clang: '' @ exn) w)"

section \<open>The traversal as a sequence of node visits\<close>

text \<open>The nodes of a tree in the order \<open>visit\<close> reaches them: a node, then the nodes under
  each of its children in turn.\<close>

function preorder :: "node \<Rightarrow> node list" where
  "preorder node = node # concat (map preorder (children node))"
  by pat_completeness auto
termination
proof -
  have mem: "size c < Suc (size_list size cs)" if "c \<in> set cs" for c :: node and cs
    using that by (induction cs) auto
  have opt: "size c < Suc (size_option size x)" if "c \<in> set (opt_children x)" for c x
    using that by (cases x) auto
  have seq: "size c < Suc (size_option (size_list size) x)" if "c \<in> set (seq_children x)"
    for c x
    using that by (cases x) (auto dest: mem)
  have smaller: "size c < size n" if "c \<in> set (children n)" for c n
    using that by (cases n) (auto dest: mem opt seq)
  show ?thesis
    by (relation "measure size") (auto dest!: smaller)
qed

text \<open>What reaching one node does to the checker before its children are visited.\<close>

fun on_visit :: "node \<Rightarrow> checker \<Rightarrow> checker" where
  "on_visit (Decl name ty init bitsize) s = visit_Decl_stmts (Decl name ty init bitsize) s"
| "on_visit (ID name) s = visit_ID_stmts (ID name) s"
| "on_visit (FuncCall name args) s = visit_FuncCall_stmts (FuncCall name args) s"
| "on_visit n s = s"

text \<open>\<open>declares k n\<close>: visiting \<open>n\<close> stores \<open>k\<close> in \<open>defined_vars\<close>, that is, \<open>n\<close> is a
  \<open>Decl\<close> named \<open>k\<close> whose type is a \<open>TypeDecl\<close>.\<close>

fun declares :: "string option \<Rightarrow> node \<Rightarrow> bool" where
  "declares k (Decl name ty init bitsize) = (name = k \<and> is_TypeDecl ty)"
| "declares k n = False"

text \<open>\<open>refers k n\<close>: \<open>n\<close> is an \<open>ID\<close> whose name is the key \<open>k\<close>.\<close>

fun refers :: "string option \<Rightarrow> node \<Rightarrow> bool" where
  "refers k (ID name) = (k = Some name)"
| "refers k n = False"

section \<open>Sample programs and collaborators\<close>

definition void_type :: node where
  "void_type = Node ''IdentifierType'' []"

definition int_type :: node where
  "int_type = Node ''IdentifierType'' []"

text \<open>The parameter list \<open>(void)\<close>: one unnamed \<open>Typename\<close>.\<close>

definition void_params :: "node list option" where
  "void_params = Some [Node ''Typename'' [TypeDecl None void_type]]"

definition var_decl :: "string \<Rightarrow> node" where
  "var_decl name = Decl (Some name) (TypeDecl (Some name) int_type) None None"

definition func_def :: "string \<Rightarrow> node list option \<Rightarrow> node list \<Rightarrow> node" where
  "func_def name params body =
     Node ''FuncDef''
       [Decl (Some name) (FuncDecl params (TypeDecl (Some name) void_type)) None None,
        Node ''Compound'' body]"

text \<open>\<open>void f(int a) { } void g(void) { f(1, 2); }\<close>\<close>

definition scenario_B_ast :: node where
  "scenario_B_ast =
     Node ''FileAST''
       [func_def ''f'' (Some [var_decl ''a'']) [],
        func_def ''g'' void_params
          [FuncCall (ID ''f'') (Some [Node ''Constant'' [], Node ''Constant'' []])]]"

text \<open>The checker as it stands when the traversal of the program above reaches the call
  \<open>f(1, 2)\<close>.\<close>

definition scenario_B_state :: checker where
  "scenario_B_state =
     \<lparr>defined_vars = [(Some ''a'', False)],
      function_signatures = [(Some ''f'', 1), (Some ''g'', 1)],
      errors = []\<rparr>"

text \<open>\<open>void f(void) { int x; } void g(void) { x = 1; }\<close>\<close>

definition sibling_scopes_ast :: node where
  "sibling_scopes_ast =
     Node ''FileAST''
       [func_def ''f'' void_params [var_decl ''x''],
        func_def ''g'' void_params [Node ''Assignment'' [ID ''x'', Node ''Constant'' []]]]"

text \<open>\<open>void g(void) { h(); }\<close>\<close>

definition unresolved_call_ast :: node where
  "unresolved_call_ast =
     Node ''FileAST'' [func_def ''g'' void_params [FuncCall (ID ''h'') None]]"

text \<open>\<open>void f(int a) { }\<close>\<close>

definition unused_param_ast :: node where
  "unused_param_ast = Node ''FileAST'' [func_def ''f'' (Some [var_decl ''a'']) []]"

text \<open>\<open>void f(void) { int i; i = 0; } void g(void) { int i; }\<close>\<close>

definition redeclared_ast :: node where
  "redeclared_ast =
     Node ''FileAST''
       [func_def ''f'' void_params
          [var_decl ''i'', Node ''Assignment'' [ID ''i'', Node ''Constant'' []]],
        func_def ''g'' void_params [var_decl ''i'']]"

text \<open>\<open>void g(void) { y = 5; }\<close>\<close>

definition scenario_C_ast :: node where
  "scenario_C_ast =
     Node ''FileAST''
       [func_def ''g'' void_params [Node ''Assignment'' [ID ''y'', Node ''Constant'' []]]]"

text \<open>\<open>void g(void) { int x; y = 5; }\<close>: the declaration of \<open>x\<close> is at line 1, column 20
  of the text, the reference to \<open>y\<close> at line 1, column 23.\<close>

definition order_source :: string where
  "order_source = ''void g(void) { int x; y = 5; }''"

definition order_ast :: node where
  "order_ast =
     Node ''FileAST''
       [func_def ''g'' void_params
          [var_decl ''x'', Node ''Assignment'' [ID ''y'', Node ''Constant'' []]]]"

text \<open>Cursors for that program in a file \<open>t.c\<close>: none of them is a \<open>DECL_REF_EXPR\<close>.\<close>

definition resolved_unit :: cursor where
  "resolved_unit =
     Cursor (OTHER_KIND ''TRANSLATION_UNIT'') None ''t.c''
       \<lparr>loc_file = None, loc_line = 0, loc_column = 0\<rparr>
       [Cursor (OTHER_KIND ''FUNCTION_DECL'') None ''g()''
          \<lparr>loc_file = Some ''t.c'', loc_line = 1, loc_column = 6\<rparr>
          [Cursor (OTHER_KIND ''COMPOUND_STMT'') None []
             \<lparr>loc_file = Some ''t.c'', loc_line = 1, loc_column = 14\<rparr>
             [Cursor (OTHER_KIND ''DECL_STMT'') None []
                \<lparr>loc_file = Some ''t.c'', loc_line = 1, loc_column = 16\<rparr>
                [Cursor (OTHER_KIND ''VAR_DECL'') None ''x''
                   \<lparr>loc_file = Some ''t.c'', loc_line = 1, loc_column = 20\<rparr> []]]]]"



text \<open>Collaborators that answer every call with the given results, on an interpreter that
  allows 1000 more nested calls.\<close>

definition sample_env :: "completed_process \<Rightarrow> string + node \<Rightarrow> string + cursor \<Rightarrow> env" where
  "sample_env preprocessed parsed unit =
     \<lparr>subprocess_run = (\<lambda>argv. preprocessed), parser_parse = (\<lambda>code. parsed),
      index_parse = (\<lambda>file args. unit), frames = 1000,
      recursion_error = ''maximum recursion depth exceeded''\<rparr>"

text \<open>Preprocessing succeeds, the parser returns the tree of \<open>order_source\<close>, and \<open>libclang\<close>
  returns the unit above.\<close>

definition order_env :: env where
  "order_env = sample_env (Completed order_source) (Inr order_ast) (Inr resolved_unit)"

text \<open>Preprocessing succeeds, the parser returns the tree of
  \<open>void g(void) { y = 5; }\<close>, and \<open>libclang\<close> cannot be loaded.\<close>

definition no_libclang_env :: env where
  "no_libclang_env = sample_env (Completed ''void g(void) { y = 5; }'') (Inr scenario_C_ast)
                  (Inl ''libclang.dll: cannot open shared object'')"

text \<open>No \<open>clang\<close> executable is found: \<open>subprocess.run\<close> raises \<open>FileNotFoundError\<close>.\<close>

definition clang_not_found :: string where
  "clang_not_found =
     ''[Errno 2] No such file or directory: '' @ [CHR 0x27] @ ''clang'' @ [CHR 0x27]"

definition missing_clang_env :: env where
  "missing_clang_env =
     sample_env (OtherException clang_not_found) (Inr scenario_C_ast) (Inr resolved_unit)"


section \<open>The specification's ordering of locations\<close>

text \<open>The order the specification gives the report: by file, then line, then column,
  ascending. File names are compared character by character; a location without a file
  comes before any other.\<close>

fun string_less :: "string \<Rightarrow> string \<Rightarrow> bool" where
  "string_less [] [] = False"
| "string_less [] (y # ys) = True"
| "string_less (x # xs) [] = False"
| "string_less (x # xs) (y # ys) =
     ((of_char x :: nat) < of_char y \<or> (x = y \<and> string_less xs ys))"

fun file_less :: "string option \<Rightarrow> string option \<Rightarrow> bool" where
  "file_less None None = False"
| "file_less None (Some b) = True"
| "file_less (Some a) None = False"
| "file_less (Some a) (Some b) = string_less a b"

definition location_le :: "location \<Rightarrow> location \<Rightarrow> bool" where
  "location_le a b =
     (file_less (loc_file a) (loc_file b)
      \<or> (loc_file a = loc_file b
          \<and> (loc_line a < loc_line b
              \<or> (loc_line a = loc_line b \<and> loc_column a \<le> loc_column b))))"

section \<open>The specification's wording of the arity message\<close>

text \<open>The message text of an arity mismatch as the specification words it, for comparison
  with \<open>msg_arity\<close>, the text the code builds.\<close>

definition spec_arity_message :: "string \<Rightarrow> nat \<Rightarrow> nat \<Rightarrow> string" where
  "spec_arity_message name actual expected =
     ''function '' @ quoted name @ '' called with '' @ str_nat actual
       @ '' arguments (expected '' @ str_nat expected @ '')''"

section \<open>The traversal is a fold over the pre-order\<close>

declare visit.simps [simp del] preorder.simps [simp del]

lemma visit_eq: "visit node s = fold visit (children node) (on_visit node s)"
  by (cases node) (simp_all add: visit.simps)

lemma fold_visit_preorder:
  "(\<And>c s. c \<in> set cs \<Longrightarrow> visit c s = fold on_visit (preorder c) s) \<Longrightarrow>
   fold visit cs s = fold on_visit (concat (map preorder cs)) s"
  by (induction cs arbitrary: s) simp_all

lemma visit_preorder: "visit node s = fold on_visit (preorder node) s"
proof (induction node arbitrary: s rule: preorder.induct)
  case (1 node)
  have "visit node s = fold visit (children node) (on_visit node s)"
    by (rule visit_eq)
  also have "\<dots> = fold on_visit (concat (map preorder (children node))) (on_visit node s)"
    by (rule fold_visit_preorder) (rule "1.IH")
  also have "\<dots> = fold on_visit (preorder node) s"
    by (subst preorder.simps) simp
  finally show ?case .
qed

lemma keys_on_visit:
  "fst ` set (defined_vars (on_visit n s)) = fst ` set (defined_vars s) \<union> {k. declares k n}"
  by (cases n) (auto simp: visit_Decl_stmts_def visit_ID_stmts_def visit_FuncCall_stmts_def
      Let_def dom_update split: option.splits)

lemma keys_run:
  "fst ` set (defined_vars (fold on_visit ns s)) =
   fst ` set (defined_vars s) \<union> {k. \<exists>n\<in>set ns. declares k n}"
  by (induction ns arbitrary: s) (auto simp: keys_on_visit)

lemma distinct_on_visit:
  "distinct (map fst (defined_vars s)) \<Longrightarrow> distinct (map fst (defined_vars (on_visit n s)))"
  by (cases n) (auto simp: visit_Decl_stmts_def visit_ID_stmts_def visit_FuncCall_stmts_def
      Let_def distinct_update split: option.splits)

lemma distinct_run:
  "distinct (map fst (defined_vars s)) \<Longrightarrow>
   distinct (map fst (defined_vars (fold on_visit ns s)))"
  by (induction ns arbitrary: s) (auto simp: distinct_on_visit)

lemma flag_decl: "declares k n \<Longrightarrow> map_of (defined_vars (on_visit n s)) k = Some False"
  by (cases n) (auto simp: visit_Decl_stmts_def update_conv')

lemma flag_keep:
  "\<not> declares k n \<Longrightarrow> \<not> refers k n \<Longrightarrow>
   map_of (defined_vars (on_visit n s)) k = map_of (defined_vars s) k"
  by (cases n) (auto simp: visit_Decl_stmts_def visit_ID_stmts_def visit_FuncCall_stmts_def
      Let_def update_conv' split: option.splits)

lemma flag_ref:
  "refers k n \<Longrightarrow>
   map_of (defined_vars (on_visit n s)) k =
     (if map_of (defined_vars s) k = None then None else Some True)"
  by (cases n) (auto simp: visit_ID_stmts_def Let_def update_conv' map_of_eq_None_iff)

lemma stays_unused:
  "map_of (defined_vars s) k = Some False \<Longrightarrow> \<forall>n\<in>set post. \<not> refers k n \<Longrightarrow>
   map_of (defined_vars (fold on_visit post s)) k = Some False"
proof (induction post arbitrary: s)
  case Nil
  then show ?case by simp
next
  case (Cons n post)
  have "map_of (defined_vars (on_visit n s)) k = Some False"
  proof (cases "declares k n")
    case True
    then show ?thesis by (rule flag_decl)
  next
    case False
    with Cons.prems show ?thesis by (simp add: flag_keep)
  qed
  with Cons show ?case by simp
qed

lemma unused_after_last_decl:
  assumes "declares k d" and "\<forall>n\<in>set post. \<not> refers k n"
  shows "map_of (defined_vars (fold on_visit (pre @ d # post) s)) k = Some False"
  using assms by (simp add: stays_unused flag_decl)

lemma unused_has_last_decl:
  assumes "map_of (defined_vars (fold on_visit ns s)) k = Some False"
    and "map_of (defined_vars s) k \<noteq> Some False"
  shows "\<exists>pre d post. ns = pre @ d # post \<and> declares k d \<and> (\<forall>n\<in>set post. \<not> refers k n)"
  using assms
proof (induction ns rule: rev_induct)
  case Nil
  then show ?case by simp
next
  case (snoc n ns)
  show ?case
  proof (cases "declares k n")
    case True
    then have "ns @ [n] = ns @ n # [] \<and> declares k n \<and> (\<forall>m\<in>set []. \<not> refers k m)"
      by simp
    then show ?thesis by blast
  next
    case False
    show ?thesis
    proof (cases "refers k n")
      case True
      with snoc.prems(1) show ?thesis by (simp add: flag_ref split: if_splits)
    next
      case nr: False
      with False snoc.prems(1)
      have "map_of (defined_vars (fold on_visit ns s)) k = Some False"
        by (simp add: flag_keep)
      with snoc.IH snoc.prems(2) obtain pre d post
        where "ns = pre @ d # post" "declares k d" "\<forall>m\<in>set post. \<not> refers k m"
        by blast
      with nr have "ns @ [n] = pre @ d # (post @ [n]) \<and> declares k d
          \<and> (\<forall>m\<in>set (post @ [n]). \<not> refers k m)"
        by simp
      then show ?thesis by blast
    qed
  qed
qed

lemma unused_vars_iff:
  "distinct (map fst (defined_vars s)) \<Longrightarrow>
   k \<in> set (unused_vars s) \<longleftrightarrow> map_of (defined_vars s) k = Some False"
  by (auto simp: unused_vars_def image_iff)

lemma errors_on_visit:
  "\<exists>new. errors (on_visit n s) = errors s @ new \<and>
     (\<forall>m\<in>set new. (\<exists>v. m = msg_undeclared v) \<or> (\<exists>f a b. m = msg_arity f a b))"
  by (cases n) (auto simp: visit_Decl_stmts_def visit_ID_stmts_def visit_FuncCall_stmts_def
      Let_def split: option.splits)

lemma errors_run:
  "\<exists>new. errors (fold on_visit ns s) = errors s @ new \<and>
     (\<forall>m\<in>set new. (\<exists>v. m = msg_undeclared v) \<or> (\<exists>f a b. m = msg_arity f a b))"
proof (induction ns arbitrary: s)
  case Nil
  then show ?case by simp
next
  case (Cons n ns)
  obtain new1 where 1: "errors (on_visit n s) = errors s @ new1"
    "\<forall>m\<in>set new1. (\<exists>v. m = msg_undeclared v) \<or> (\<exists>f a b. m = msg_arity f a b)"
    using errors_on_visit by blast
  obtain new2 where 2: "errors (fold on_visit ns (on_visit n s)) = errors (on_visit n s) @ new2"
    "\<forall>m\<in>set new2. (\<exists>v. m = msg_undeclared v) \<or> (\<exists>f a b. m = msg_arity f a b)"
    using Cons.IH by blast
  from 1 2 have "errors (fold on_visit (n # ns) s) = errors s @ (new1 @ new2) \<and>
     (\<forall>m\<in>set (new1 @ new2). (\<exists>v. m = msg_undeclared v) \<or> (\<exists>f a b. m = msg_arity f a b))"
    by auto
  then show ?case by blast
qed

section \<open>Facts about the messages and the sample programs\<close>

lemmas sample_defs = scenario_B_ast_def scenario_C_ast_def sibling_scopes_ast_def
  unresolved_call_ast_def
  unused_param_ast_def redeclared_ast_def func_def_def var_decl_def void_params_def
  void_type_def int_type_def

lemmas stmts_defs = visit_Decl_stmts_def visit_ID_stmts_def visit_FuncCall_stmts_def Let_def

lemma msg_unused_not_error:
  "msg_unused k \<noteq> msg_undeclared v" "msg_unused k \<noteq> msg_arity f a b"
  by (simp_all add: msg_unused_def msg_undeclared_def msg_arity_def)

lemma msg_parse_distinct:
  "msg_parse exn \<noteq> msg_undeclared v" "msg_parse exn \<noteq> msg_arity f a b"
  "msg_parse exn \<noteq> msg_unused k"
  by (simp_all add: msg_parse_def msg_unused_def msg_undeclared_def msg_arity_def)

lemma check_ast_split:
  "check_ast ast = errors (visit ast init_checker) @ map msg_unused (unused_vars (visit ast init_checker))"
  by (simp add: check_ast_def check_unused_vars_def)

lemma traversal_errors:
  "m \<in> set (errors (visit ast init_checker)) \<Longrightarrow>
   (\<exists>v. m = msg_undeclared v) \<or> (\<exists>f a b. m = msg_arity f a b)"
  using errors_run [of "preorder ast" init_checker]
  by (auto simp: visit_preorder init_checker_def)

lemma check_scenario_B:
  "check_ast scenario_B_ast = [msg_arity ''f'' 2 1, msg_undeclared ''f'', msg_unused (Some ''a'')]"
  by (simp add: check_ast_def check_unused_vars_def unused_vars_def sample_defs init_checker_def
      stmts_defs visit.simps numeral_2_eq_2)


lemma visit_distinct:
  "distinct (map fst (defined_vars (visit ast init_checker)))"
  by (simp add: visit_preorder distinct_run init_checker_def)



lemma preorder_sibling:
  "preorder sibling_scopes_ast =
     take 23 (preorder sibling_scopes_ast) @ ID ''x'' # drop 24 (preorder sibling_scopes_ast)"
  by (simp add: sample_defs preorder.simps)

lemma pre_sibling: "list_ex (declares (Some ''x'')) (take 23 (preorder sibling_scopes_ast))"
  by (simp add: sample_defs preorder.simps)

lemma preorder_unresolved_call:
  "preorder unresolved_call_ast =
     take 10 (preorder unresolved_call_ast) @ [FuncCall (ID ''h'') None, ID ''h'']"
  by (simp add: sample_defs preorder.simps)

lemma check_unresolved_call: "check_ast unresolved_call_ast = [msg_undeclared ''h'']"
  by (simp add: check_ast_def check_unused_vars_def unused_vars_def sample_defs init_checker_def
      stmts_defs visit.simps)

lemma sigs_before_call:
  "function_signatures (fold on_visit (take 10 (preorder unresolved_call_ast)) init_checker)
     = [(Some ''g'', 1)]"
  by (simp add: sample_defs preorder.simps init_checker_def stmts_defs)

lemma arity_message_f_2_1:
  "msg_arity ''f'' 2 1 =
     ''Error: Function '' @ [CHR 0x27] @ ''f'' @ [CHR 0x27] @ '' called with 2 arguments (expected 1).''"
  by (simp add: msg_arity_def quoted_def)

lemma print_all_stdout: "print_all lines w = w\<lparr>stdout := stdout w @ lines\<rparr>"
  unfolding print_all_def by (induction lines arbitrary: w) (simp_all add: print_def)

lemma check_scenario_C: "check_ast scenario_C_ast = [msg_undeclared ''y'']"
  by (simp add: check_ast_def check_unused_vars_def unused_vars_def sample_defs init_checker_def
      stmts_defs visit.simps)

lemma test2_clang_analysis_catches:
  "popen_read (clang_command file_path) = Inl exn \<Longrightarrow>
   test2_clang_analysis popen_read file_path w = print (''Error running clang: '' @ exn) w"
  by (simp add: test2_clang_analysis_def)

section \<open>The stack-limited visitor against the traversal\<close>

text \<open>With enough frames the calls compute \<open>visit\<close>; with fewer they raise
  \<open>RecursionError\<close>.\<close>

declare frames_needed.simps [simp del]

lemma fold_max_le: "fold max xs (a::nat) \<le> n \<longleftrightarrow> a \<le> n \<and> (\<forall>x\<in>set xs. x \<le> n)"
  by (induction xs arbitrary: a) auto

lemma for_each_eq:
  assumes "\<And>c s. c \<in> set cs \<Longrightarrow> body c s = (if ok c then Inr (f c s) else Inl exn)"
  shows "for_each body cs s = (if \<forall>c\<in>set cs. ok c then Inr (fold f cs s) else Inl exn)"
  using assms by (induction cs arbitrary: s) auto

lemma own_frames_cases: "own_frames node = 3 \<or> own_frames node = 2"
  by (cases node) simp_all

lemma on_visit_plain: "own_frames node = 2 \<Longrightarrow> on_visit node s = s"
  by (cases node) simp_all

lemma call_visit_Suc:
  "call_method e (Suc m) Visit node s =
     (if own_frames node = 3 then
        (case m of
           0 \<Rightarrow> Inl (recursion_error e)
         | Suc k \<Rightarrow> call_method e k Generic_visit node (on_visit node s))
      else call_method e m Generic_visit node s)"
  by (cases node; cases m) simp_all

lemma call_visit_eq:
  "call_method e n Visit node s =
     (if frames_needed node \<le> n then Inr (visit node s) else Inl (recursion_error e))"
proof (induction node arbitrary: n s rule: preorder.induct)
  case (1 node)
  define deepest where "deepest = fold max (map frames_needed (children node)) 0"
  have needed: "frames_needed node = own_frames node + deepest"
    by (subst frames_needed.simps) (simp add: deepest_def)
  have each: "for_each (call_method e m Visit) (children node) t =
      (if deepest \<le> m then Inr (fold visit (children node) t) else Inl (recursion_error e))"
    for m t
    using for_each_eq [of "children node" "call_method e m Visit"
        "\<lambda>c. frames_needed c \<le> m" visit "recursion_error e" t] "1.IH"
    by (simp add: deepest_def fold_max_le)
  have generic: "call_method e m Generic_visit node t =
      (if Suc deepest \<le> m then Inr (fold visit (children node) t)
       else Inl (recursion_error e))"
    for m t
    by (cases m) (simp_all add: each)
  show ?case
  proof (cases n)
    case 0
    then show ?thesis
      using own_frames_cases [of node] by (auto simp: needed)
  next
    case (Suc m)
    show ?thesis
    proof (cases "own_frames node = 3")
      case True
      then show ?thesis
        by (cases m)
           (simp_all add: Suc call_visit_Suc needed generic visit_eq [of node]
              del: call_method.simps)
    next
      case False
      then have two: "own_frames node = 2"
        using own_frames_cases [of node] by simp
      then show ?thesis
        by (simp add: Suc call_visit_Suc needed generic visit_eq [of node] on_visit_plain
            del: call_method.simps)
    qed
  qed
qed

lemma limited_visit_eq:
  "limited_visit e n node s =
     (if frames_needed node \<le> n then Inr (visit node s) else Inl (recursion_error e))"
  by (simp add: limited_visit_def call_visit_eq)

lemma check_code_parsed:
  "parser_parse e code = Inr ast \<Longrightarrow>
   check_code e code =
     (if frames_needed ast \<le> frames e then check_ast ast else [msg_parse (recursion_error e)])"
  by (simp add: check_code_def limited_visit_eq check_ast_def)

lemma frames_needed_simps:
  "frames_needed (Decl name ty init bitsize) =
     3 + fold max (map frames_needed (ty # opt_children init @ opt_children bitsize)) 0"
  "frames_needed (TypeDecl dname ty) = 2 + frames_needed ty"
  "frames_needed (FuncDecl args ty) =
     2 + fold max (map frames_needed (seq_children args @ [ty])) 0"
  "frames_needed (ID x) = 3"
  "frames_needed (FuncCall nm args) =
     3 + fold max (map frames_needed (nm # seq_children args)) 0"
  "frames_needed (Node cls cs) = 2 + fold max (map frames_needed cs) 0"
  by (simp_all add: frames_needed.simps)


lemma frames_samples:
  "frames_needed scenario_B_ast = 16" "frames_needed scenario_C_ast = 15"
  "frames_needed redeclared_ast = 15" "frames_needed order_ast = 15"
  by (simp_all add: sample_defs order_ast_def frames_needed_simps)


lemma sample_env_sel [simp]:
  "subprocess_run (sample_env p a c) = (\<lambda>argv. p)"
  "parser_parse (sample_env p a c) = (\<lambda>code. a)"
  "index_parse (sample_env p a c) = (\<lambda>file args. c)"
  "frames (sample_env p a c) = 1000"
  "recursion_error (sample_env p a c) = ''maximum recursion depth exceeded''"
  by (simp_all add: sample_env_def)

lemma for_each_keeps:
  assumes "\<And>x s r. x \<in> set xs \<Longrightarrow> body x s = Inr r \<Longrightarrow> r = s"
    and "for_each body xs s = Inr r"
  shows "r = s"
  using assms by (induction xs arbitrary: s) (auto split: sum.splits)

lemma traverse_ast_appends_nothing:
  "traverse_ast e n node errs = Inr found \<Longrightarrow> found = errs"
proof (induction n arbitrary: node errs found)
  case 0
  then show ?case by simp
next
  case (Suc n)
  from Suc.prems
  have "for_each (traverse_ast e n) (get_children node) errs = Inr found"
    by (simp split: if_splits)
  then show ?case
    using Suc.IH by (rule for_each_keeps [rotated])
qed

lemma clang_analysis_reports_nothing:
  "clang_analysis e file = Inr found \<Longrightarrow> found = []"
  by (auto simp: clang_analysis_def split: sum.splits dest: traverse_ast_appends_nothing)

lemma traverse_ast_pos:
  "0 < n \<Longrightarrow>
   traverse_ast e n node errs =
     (if kind node = DECL_REF_EXPR \<and> referenced node = None then Inl attribute_error
      else for_each (traverse_ast e (n - 1)) (get_children node) errs)"
  by (cases n) simp_all

lemma clang_analysis_resolved_unit:
  "clang_analysis (sample_env p a (Inr resolved_unit)) file = Inr []"
  by (simp add: clang_analysis_def resolved_unit_def traverse_ast_pos)

lemma check_code_sample:
  "frames_needed ast \<le> 1000 \<Longrightarrow> check_code (sample_env p (Inr ast) c) code = check_ast ast"
  by (simp add: check_code_parsed)



lemma preprocessing_error_short_circuits:
  assumes "subprocess_run e (clang_argv c_file (Some include_dirs)) = CalledProcessError err"
  shows "analyze_code e c_file w =
    (Inr (),
     w\<lparr>stdout := stdout w @
          [''Analyzing: '' @ c_file @ [CHR 0x0A],
           ''Preprocessing code for pycparser...'',
           ''Preprocessing failed: '' @ err,
           ''Failed to preprocess the code.''],
       invoked := invoked w @ [Preprocess_code c_file (Some include_dirs)]\<rparr>)"
  using assms by (simp add: analyze_code_def preprocess_code_def print_def invoke_def)

lemma check_order: "check_ast order_ast = [msg_undeclared ''y'', msg_unused (Some ''x'')]"
  by (simp add: check_ast_def check_unused_vars_def unused_vars_def order_ast_def sample_defs
      init_checker_def stmts_defs visit.simps)

lemma order_report:
  "analyze_code order_env ''t.c'' new_world =
      (Inr (),
       \<lparr>stdout =
          [''Analyzing: t.c'' @ [CHR 0x0A],
           ''Preprocessing code for pycparser...'',
           ''pycparser Analysis:'',
           msg_undeclared ''y'',
           msg_unused (Some ''x''),
           CHR 0x0A # ''Clang Analysis:'',
           ''No issues found by Clang.'',
           CHR 0x0A # ''Analysis Complete.'' @ [CHR 0x0A]],
        invoked =
          [Preprocess_code ''t.c'' (Some include_dirs), Check_code order_source,
           Clang_analysis ''t.c'']\<rparr>)"
proof -
  have "check_code order_env order_source = [msg_undeclared ''y'', msg_unused (Some ''x'')]"
    by (simp add: order_env_def check_code_sample frames_samples check_order)
  moreover have "clang_analysis order_env ''t.c'' = Inr []"
    by (simp add: order_env_def clang_analysis_resolved_unit)
  moreover have "subprocess_run order_env (clang_argv ''t.c'' (Some include_dirs))
      = Completed order_source"
    by (simp add: order_env_def)
  ultimately show ?thesis
    by (simp add: analyze_code_def preprocess_code_def Let_def print_all_stdout print_def
        invoke_def new_world_def)
qed

section \<open>The claims\<close>

subsection \<open>C4: a source that does not parse\<close>

text \<open>
  Claim C4. For every source text on which the parser raises, \<open>check_code\<close> returns
  exactly one diagnostic, the parse failure carrying the parser's message, and that
  diagnostic is none of the messages for an undeclared variable, an arity mismatch or an
  unused variable.
\<close>

theorem parse_failure_single_diagnostic:
  assumes "parser_parse e code = Inl exn"
  shows "check_code e code = [msg_parse exn]
    \<and> (\<forall>v. msg_parse exn \<noteq> msg_undeclared v)
    \<and> (\<forall>f a b. msg_parse exn \<noteq> msg_arity f a b)
    \<and> (\<forall>k. msg_parse exn \<noteq> msg_unused k)"
  using assms by (simp add: check_code_def msg_parse_distinct)

theorem parse_failure_single_diagnostic_witness:
  "parser_parse (sample_env (Completed ''int main(void) { int x;'') (Inl ''At end of input'') (Inl ''''))
      ''int main(void) { int x;'' = Inl ''At end of input''
   \<and> check_code (sample_env (Completed ''int main(void) { int x;'') (Inl ''At end of input'') (Inl ''''))
      ''int main(void) { int x;'' = [''Error in parsing code with pycparser: At end of input'']"
  using parse_failure_single_diagnostic
    [of "sample_env (Completed ''int main(void) { int x;'') (Inl ''At end of input'') (Inl '''')"
        "''int main(void) { int x;''" "''At end of input''"]
  by (simp add: sample_env_def msg_parse_def)

subsection \<open>C3: what is reported as unused\<close>

text \<open>
  Claim C3, as stated, fails: a parameter is a \<open>Decl\<close> whose type is a \<open>TypeDecl\<close>, so
  \<open>visit_Decl\<close> stores it like any variable, and \<open>void f(int a) { }\<close> is answered with
  the warning that \<open>a\<close> is never used.
\<close>

theorem unused_parameter_counterexample:
  "check_ast unused_param_ast = [msg_unused (Some ''a'')]
   \<and> msg_unused (Some ''a'') = ''Warning: Variable '' @ [CHR 0x27] @ ''a'' @ [CHR 0x27] @ '' defined but never used.''"
  by (simp add: check_ast_def check_unused_vars_def unused_vars_def sample_defs init_checker_def
      stmts_defs visit.simps msg_unused_def quoted_def)

text \<open>
  Claim C3, amended. After the traversal every key of \<open>defined_vars\<close> whose flag is still
  false gets one warning, in the dictionary's order, after the traversal's errors. A key is
  among them exactly when some \<open>Decl\<close> of that name with a \<open>TypeDecl\<close> type, a parameter
  or not, is followed in the traversal by no \<open>ID\<close> of that name. A function's own
  declaration (a \<open>Decl\<close> with a \<open>FuncDecl\<close> type) is no such node, so it never makes
  the function's name reported.
\<close>

theorem unused_report:
  "check_ast ast =
     errors (visit ast init_checker) @ map msg_unused (unused_vars (visit ast init_checker))
   \<and> (k \<in> set (unused_vars (visit ast init_checker)) \<longleftrightarrow>
        (\<exists>pre d post. preorder ast = pre @ d # post \<and> declares k d
           \<and> \<not> list_ex (refers k) post))"
proof -
  have "map_of (defined_vars (visit ast init_checker)) k = Some False \<longleftrightarrow>
        (\<exists>pre d post. preorder ast = pre @ d # post \<and> declares k d
           \<and> \<not> list_ex (refers k) post)"
  proof
    assume "map_of (defined_vars (visit ast init_checker)) k = Some False"
    then have "map_of (defined_vars (fold on_visit (preorder ast) init_checker)) k = Some False"
      by (simp only: visit_preorder)
    moreover have "map_of (defined_vars init_checker) k \<noteq> Some False"
      by (simp add: init_checker_def)
    ultimately show "\<exists>pre d post. preorder ast = pre @ d # post \<and> declares k d
           \<and> \<not> list_ex (refers k) post"
      using unused_has_last_decl [of "preorder ast" init_checker k]
      by (simp add: list_ex_iff)
  next
    assume "\<exists>pre d post. preorder ast = pre @ d # post \<and> declares k d
           \<and> \<not> list_ex (refers k) post"
    then obtain pre d post where "preorder ast = pre @ d # post" "declares k d"
      "\<forall>n\<in>set post. \<not> refers k n"
      by (auto simp: list_ex_iff)
    then show "map_of (defined_vars (visit ast init_checker)) k = Some False"
      using unused_after_last_decl [of k d post pre init_checker]
      by (simp add: visit_preorder)
  qed
  then show ?thesis
    by (simp add: check_ast_split unused_vars_iff visit_distinct)
qed

theorem unused_report_witness:
  "check_ast unused_param_ast = [msg_unused (Some ''a'')]
   \<and> Some ''a'' \<in> set (unused_vars (visit unused_param_ast init_checker))
   \<and> Some ''f'' \<notin> set (unused_vars (visit unused_param_ast init_checker))"
  using unused_report [of unused_param_ast "Some ''a''"]
  by (simp add: check_ast_def check_unused_vars_def unused_vars_def sample_defs init_checker_def
      stmts_defs visit.simps)

subsection \<open>C1: resolution knows no scopes\<close>

text \<open>
  Claim C1, as stated, fails: in \<open>void f(void) { int x; } void g(void) { x = 1; }\<close> the
  \<open>x\<close> of \<open>g\<close> resolves to the declaration inside the closed body of \<open>f\<close>: no error
  is recorded and that declaration is marked as used.
\<close>

theorem sibling_scope_counterexample:
  "visit sibling_scopes_ast init_checker =
     \<lparr>defined_vars = [(Some ''x'', True)],
      function_signatures = [(Some ''f'', 1), (Some ''g'', 1)],
      errors = []\<rparr>
   \<and> check_ast sibling_scopes_ast = []"
  by (simp add: check_ast_def check_unused_vars_def unused_vars_def sample_defs init_checker_def
      stmts_defs visit.simps)

text \<open>
  Claim C1, amended. The checker keeps one flat table. In every program an identifier
  resolves exactly when a variable declaration of its name was visited earlier in the
  traversal, in whatever block or function; otherwise the undeclared-variable error is
  recorded. Declaring a name records no diagnostic whatever the table holds (there is no
  duplicate-declaration diagnostic) and leaves the name's single entry flagged unused.
\<close>

theorem flat_table_resolution:
  assumes "preorder ast = pre @ ID x # post"
  shows "visit ast init_checker =
           fold on_visit post (visit_ID_stmts (ID x) (fold on_visit pre init_checker))
    \<and> errors (visit_ID_stmts (ID x) (fold on_visit pre init_checker)) =
        errors (fold on_visit pre init_checker)
          @ (if list_ex (declares (Some x)) pre then [] else [msg_undeclared x])
    \<and> (declares (Some x) d \<longrightarrow>
          errors (visit_Decl_stmts d s) = errors s
          \<and> map_of (defined_vars (visit_Decl_stmts d s)) (Some x) = Some False)"
proof -
  have "visit ast init_checker =
           fold on_visit post (visit_ID_stmts (ID x) (fold on_visit pre init_checker))"
    by (simp add: visit_preorder assms)
  moreover have "Some x \<in> fst ` set (defined_vars (fold on_visit pre init_checker))
      \<longleftrightarrow> list_ex (declares (Some x)) pre"
    by (simp add: keys_run init_checker_def list_ex_iff)
  then have "errors (visit_ID_stmts (ID x) (fold on_visit pre init_checker)) =
        errors (fold on_visit pre init_checker)
          @ (if list_ex (declares (Some x)) pre then [] else [msg_undeclared x])"
    by (simp add: visit_ID_stmts_def)
  moreover have "errors (visit_Decl_stmts d s) = errors s
          \<and> map_of (defined_vars (visit_Decl_stmts d s)) (Some x) = Some False"
    if "declares (Some x) d"
    using that flag_decl [of "Some x" d s] by (cases d) (simp_all add: visit_Decl_stmts_def)
  ultimately show ?thesis by simp
qed

theorem flat_table_resolution_witness:
  "preorder sibling_scopes_ast =
     take 23 (preorder sibling_scopes_ast) @ ID ''x'' # drop 24 (preorder sibling_scopes_ast)
   \<and> list_ex (declares (Some ''x'')) (take 23 (preorder sibling_scopes_ast))
   \<and> errors (visit_ID_stmts (ID ''x'')
        (fold on_visit (take 23 (preorder sibling_scopes_ast)) init_checker)) =
      errors (fold on_visit (take 23 (preorder sibling_scopes_ast)) init_checker)
   \<and> declares (Some ''x'') (var_decl ''x'')
   \<and> errors (visit_Decl_stmts (var_decl ''x'')
        \<lparr>defined_vars = [(Some ''x'', True)], function_signatures = [], errors = []\<rparr>) = []
   \<and> map_of (defined_vars (visit_Decl_stmts (var_decl ''x'')
        \<lparr>defined_vars = [(Some ''x'', True)], function_signatures = [], errors = []\<rparr>))
        (Some ''x'') = Some False"
  using flat_table_resolution
    [of sibling_scopes_ast "take 23 (preorder sibling_scopes_ast)" "''x''"
        "drop 24 (preorder sibling_scopes_ast)" "var_decl ''x''"
        "\<lparr>defined_vars = [(Some ''x'', True)], function_signatures = [], errors = []\<rparr>"]
    preorder_sibling pre_sibling
  by (simp add: var_decl_def)

subsection \<open>C2: the callee of a call is visited like any identifier\<close>

text \<open>
  Claim C2, as stated, fails: \<open>visit_FuncCall\<close> ends with \<open>generic_visit\<close>, which visits
  the callee \<open>ID\<close>. In \<open>void g(void) { h(); }\<close> the callee \<open>h\<close> is no known function
  when the call is reached, and the pass reports it as a variable used before declaration.
\<close>

theorem unresolved_callee_counterexample:
  "preorder unresolved_call_ast =
     take 10 (preorder unresolved_call_ast) @ [FuncCall (ID ''h'') None, ID ''h'']
   \<and> map_of (function_signatures
        (fold on_visit (take 10 (preorder unresolved_call_ast)) init_checker)) (Some ''h'') = None
   \<and> check_ast unresolved_call_ast = [msg_undeclared ''h'']
   \<and> msg_undeclared ''h'' =
       ''Error: Variable '' @ [CHR 0x27] @ ''h'' @ [CHR 0x27] @ '' used before declaration.''"
  using preorder_unresolved_call
  by (simp add: check_unresolved_call sigs_before_call msg_undeclared_def quoted_def)

text \<open>
  Claim C2, amended. For every call whose callee is an identifier that is not a key of
  \<open>function_signatures\<close>, the arity check records nothing and the callee is then visited
  like any other identifier: the undeclared-variable error is recorded for it exactly when
  no variable of that name is in \<open>defined_vars\<close>; the arguments are visited afterwards.
\<close>

theorem callee_visited_as_reference:
  assumes "map_of (function_signatures s) (Some f) = None"
  shows "visit (FuncCall (ID f) args) s =
           fold visit (seq_children args) (visit_ID_stmts (ID f) s)
    \<and> errors (visit_ID_stmts (ID f) s) =
        errors s @ (if Some f \<in> fst ` set (defined_vars s) then [] else [msg_undeclared f])"
proof -
  have "visit_FuncCall_stmts (FuncCall (ID f) args) s = s"
    using assms by (simp add: visit_FuncCall_stmts_def)
  then have "visit (FuncCall (ID f) args) s = fold visit (ID f # seq_children args) s"
    by (simp add: visit_eq [of "FuncCall (ID f) args"])
  also have "\<dots> = fold visit (seq_children args) (visit (ID f) s)"
    by simp
  also have "visit (ID f) s = visit_ID_stmts (ID f) s"
    by (simp add: visit_eq [of "ID f"])
  finally have "visit (FuncCall (ID f) args) s =
           fold visit (seq_children args) (visit_ID_stmts (ID f) s)" .
  moreover have "errors (visit_ID_stmts (ID f) s) =
        errors s @ (if Some f \<in> fst ` set (defined_vars s) then [] else [msg_undeclared f])"
    by (simp add: visit_ID_stmts_def)
  ultimately show ?thesis by simp
qed

theorem callee_visited_as_reference_witness:
  "map_of (function_signatures init_checker) (Some ''h'') = None
   \<and> visit (FuncCall (ID ''h'') None) init_checker =
       \<lparr>defined_vars = [], function_signatures = [], errors = [msg_undeclared ''h'']\<rparr>"
  using callee_visited_as_reference [of init_checker "''h''" None]
  by (simp add: init_checker_def visit_ID_stmts_def)

subsection \<open>C7: the arity check\<close>

text \<open>
  Claim C7, as stated, fails in the text of the message only: for
  \<open>void f(int a) { } void g(void) { f(1, 2); }\<close> the pass records one arity error, whose
  text starts with \<open>Error: Function\<close> and ends with a full stop, and the text the claim
  quotes is not in the list.
\<close>

theorem arity_message_counterexample:
  "check_ast scenario_B_ast =
     [''Error: Function '' @ [CHR 0x27] @ ''f'' @ [CHR 0x27] @ '' called with 2 arguments (expected 1).'',
      msg_undeclared ''f'', msg_unused (Some ''a'')]
   \<and> spec_arity_message ''f'' 2 1 =
       ''function '' @ [CHR 0x27] @ ''f'' @ [CHR 0x27] @ '' called with 2 arguments (expected 1)''
   \<and> spec_arity_message ''f'' 2 1 \<notin> set (check_ast scenario_B_ast)"
  by (simp add: check_scenario_B spec_arity_message_def msg_arity_def msg_undeclared_def
      msg_unused_def quoted_def)

text \<open>
  Claim C7, amended. For every call whose callee is an identifier that is a key of
  \<open>function_signatures\<close>, \<open>visit_FuncCall\<close> records an arity error exactly when the number
  of argument expressions differs from the stored count, before it visits the children;
  the text is \<open>Error: Function '<name>' called with <actual> arguments (expected
  <expected>).\<close> Calling the one-parameter \<open>f\<close> with two arguments yields exactly one
  such error.
\<close>

theorem arity_check:
  assumes "map_of (function_signatures s) (Some f) = Some expected"
  shows "visit (FuncCall (ID f) args) s =
           generic_visit (FuncCall (ID f) args) (visit_FuncCall_stmts (FuncCall (ID f) args) s)
    \<and> visit_FuncCall_stmts (FuncCall (ID f) args) s =
        (if length (seq_children args) \<noteq> expected then
           s\<lparr>errors := errors s @ [msg_arity f (length (seq_children args)) expected]\<rparr>
         else s)
    \<and> msg_arity f actual expected =
        ''Error: Function '' @ [CHR 0x27] @ f @ [CHR 0x27] @ '' called with '' @ str_nat actual
          @ '' arguments (expected '' @ str_nat expected @ '').''"
proof -
  have "visit (FuncCall (ID f) args) s =
           generic_visit (FuncCall (ID f) args) (visit_FuncCall_stmts (FuncCall (ID f) args) s)"
    by (simp add: visit.simps)
  moreover have "visit_FuncCall_stmts (FuncCall (ID f) args) s =
        (if length (seq_children args) \<noteq> expected then
           s\<lparr>errors := errors s @ [msg_arity f (length (seq_children args)) expected]\<rparr>
         else s)"
    using assms by (cases args) (simp_all add: visit_FuncCall_stmts_def)
  moreover have "msg_arity f actual expected =
        ''Error: Function '' @ [CHR 0x27] @ f @ [CHR 0x27] @ '' called with '' @ str_nat actual
          @ '' arguments (expected '' @ str_nat expected @ '').''"
    by (simp add: msg_arity_def quoted_def del: str_nat.simps)
  ultimately show ?thesis by (simp only:)
qed

theorem arity_check_witness:
  "map_of (function_signatures scenario_B_state) (Some ''f'') = Some 1
   \<and> visit_FuncCall_stmts
        (FuncCall (ID ''f'') (Some [Node ''Constant'' [], Node ''Constant'' []])) scenario_B_state
      = scenario_B_state\<lparr>errors := [msg_arity ''f'' 2 1]\<rparr>
   \<and> msg_arity ''f'' 2 1 =
       ''Error: Function '' @ [CHR 0x27] @ ''f'' @ [CHR 0x27] @ '' called with 2 arguments (expected 1).''
   \<and> count_list (check_ast scenario_B_ast) (msg_arity ''f'' 2 1) = 1"
proof -
  have sig: "map_of (function_signatures scenario_B_state) (Some ''f'') = Some 1"
    by (simp add: scenario_B_state_def)
  have len: "length (seq_children (Some [Node ''Constant'' [], Node ''Constant'' []])) = 2"
    by simp
  have "visit_FuncCall_stmts
        (FuncCall (ID ''f'') (Some [Node ''Constant'' [], Node ''Constant'' []])) scenario_B_state
      = scenario_B_state\<lparr>errors := [msg_arity ''f'' 2 1]\<rparr>"
    using arity_check [OF sig, of "Some [Node ''Constant'' [], Node ''Constant'' []]" 2]
    by (simp only: len) (simp add: scenario_B_state_def)
  moreover have "count_list (check_ast scenario_B_ast) (msg_arity ''f'' 2 1) = 1"
    by (simp add: check_scenario_B msg_arity_def msg_undeclared_def msg_unused_def quoted_def)
  ultimately show ?thesis
    using sig arity_message_f_2_1 by (simp only:)
qed

subsection \<open>C10: warnings come after errors\<close>

text \<open>
  Claim C10. For every source text that parses, in the list \<open>check_code\<close> returns every
  unused-variable warning stands at a later position than every undeclared-variable error
  and every arity error: the warnings are appended by \<open>check_unused_vars\<close>, which runs
  after the whole traversal. (When the traversal exceeds the stack the list is the single
  parse message, which is neither.)
\<close>

theorem warnings_trail_errors:
  assumes "parser_parse e code = Inr ast"
    and "i < length (check_code e code)" and "j < length (check_code e code)"
    and "check_code e code ! i = msg_unused k"
    and "check_code e code ! j = msg_undeclared v \<or> check_code e code ! j = msg_arity f a b"
  shows "j < i"
proof (cases "frames_needed ast \<le> frames e")
  case False
  then have "check_code e code = [msg_parse (recursion_error e)]"
    using assms(1) by (simp add: check_code_parsed)
  with assms(2,4) show ?thesis
    by (simp add: msg_parse_distinct)
next
  case True
  define es where "es = errors (visit ast init_checker)"
  define ws where "ws = map msg_unused (unused_vars (visit ast init_checker))"
  have split: "check_code e code = es @ ws"
    using assms(1) True by (simp add: check_code_parsed check_ast_split es_def ws_def)
  have es: "(\<exists>v. m = msg_undeclared v) \<or> (\<exists>f a b. m = msg_arity f a b)" if "m \<in> set es" for m
    using that traversal_errors by (simp add: es_def)
  have ws: "\<exists>k. m = msg_unused k" if "m \<in> set ws" for m
    using that by (auto simp: ws_def)
  have "length es \<le> i"
  proof (rule ccontr)
    assume "\<not> length es \<le> i"
    then have "i < length es" by simp
    then have "es ! i \<in> set es" and "check_code e code ! i = es ! i"
      by (simp_all add: split nth_append)
    with es assms(4) show False
      by (metis msg_unused_not_error)
  qed
  moreover have "j < length es"
  proof (rule ccontr)
    assume "\<not> j < length es"
    with assms(3) have "j - length es < length ws" and "check_code e code ! j = ws ! (j - length es)"
      by (auto simp: split nth_append)
    then have "\<exists>k. check_code e code ! j = msg_unused k"
      using ws by (metis nth_mem)
    with assms(5) show False
      by (metis msg_unused_not_error)
  qed
  ultimately show ?thesis by simp
qed

theorem warnings_trail_errors_witness:
  "parser_parse (sample_env (Completed ''B'') (Inr scenario_B_ast) (Inl '''')) ''B'' = Inr scenario_B_ast
   \<and> check_code (sample_env (Completed ''B'') (Inr scenario_B_ast) (Inl '''')) ''B'' ! 2 = msg_unused (Some ''a'')
   \<and> check_code (sample_env (Completed ''B'') (Inr scenario_B_ast) (Inl '''')) ''B'' ! 0 = msg_arity ''f'' 2 1
   \<and> (0::nat) < 2"
  using warnings_trail_errors
    [of "sample_env (Completed ''B'') (Inr scenario_B_ast) (Inl '''')" "''B''" scenario_B_ast
        2 0 "Some ''a''" "''f''" "''f''" 2 1]
  by (simp add: check_code_sample frames_samples check_scenario_B)

subsection \<open>C9: a redeclaration forgets the earlier use\<close>




subsection \<open>C6: preprocessing fails\<close>

text \<open>
  Claim C6 is what the code misses in one case. When \<open>clang -E\<close> exits with an error,
  \<open>preprocess_code\<close> catches the \<open>CalledProcessError\<close>, the failure is printed and
  \<open>analyze_code\<close> returns before either pass (\<open>preprocessing_error_short_circuits\<close>). But
  the \<open>except\<close> clause names that exception only: when the collaborator fails otherwise
  (no \<open>clang\<close> executable, say, and \<open>subprocess.run\<close> raises \<open>FileNotFoundError\<close>), the
  exception leaves \<open>preprocess_code\<close> and \<open>analyze_code\<close> uncaught. Neither pass runs, as
  the claim says, but no preprocessing failure is surfaced: neither failure line is
  printed.
\<close>

theorem preprocessing_exception_escapes:
  assumes "subprocess_run e (clang_argv c_file (Some include_dirs)) = OtherException exn"
  shows "analyze_code e c_file w =
    (Inl exn,
     w\<lparr>stdout := stdout w @
          [''Analyzing: '' @ c_file @ [CHR 0x0A], ''Preprocessing code for pycparser...''],
       invoked := invoked w @ [Preprocess_code c_file (Some include_dirs)]\<rparr>)"
  using assms by (simp add: analyze_code_def preprocess_code_def print_def invoke_def)

theorem preprocessing_exception_escapes_witness:
  "subprocess_run missing_clang_env (clang_argv ''t.c'' (Some include_dirs))
     = OtherException clang_not_found
   \<and> analyze_code missing_clang_env ''t.c'' new_world =
      (Inl (''[Errno 2] No such file or directory: '' @ [CHR 0x27] @ ''clang'' @ [CHR 0x27]),
       \<lparr>stdout = [''Analyzing: t.c'' @ [CHR 0x0A], ''Preprocessing code for pycparser...''],
        invoked = [Preprocess_code ''t.c'' (Some include_dirs)]\<rparr>)"
  using preprocessing_exception_escapes
    [of missing_clang_env "''t.c''" clang_not_found new_world]
  by (simp add: missing_clang_env_def new_world_def clang_not_found_def)

subsection \<open>C8: the order of the report\<close>

text \<open>
  Claim C8, as stated, fails: nothing sorts the report. For
  \<open>void g(void) { int x; y = 5; }\<close> the error for \<open>y\<close>, whose reference is at line 1,
  column 23, is printed before the warning for \<open>x\<close>, whose declaration is at line 1,
  column 20.
\<close>

theorem report_order_counterexample:
  "analyze_code order_env ''t.c'' new_world =
      (Inr (),
       \<lparr>stdout =
          [''Analyzing: t.c'' @ [CHR 0x0A],
           ''Preprocessing code for pycparser...'',
           ''pycparser Analysis:'',
           ''Error: Variable '' @ [CHR 0x27] @ ''y'' @ [CHR 0x27] @ '' used before declaration.'',
           ''Warning: Variable '' @ [CHR 0x27] @ ''x'' @ [CHR 0x27] @ '' defined but never used.'',
           CHR 0x0A # ''Clang Analysis:'',
           ''No issues found by Clang.'',
           CHR 0x0A # ''Analysis Complete.'' @ [CHR 0x0A]],
        invoked =
          [Preprocess_code ''t.c'' (Some include_dirs),
           Check_code ''void g(void) { int x; y = 5; }'', Clang_analysis ''t.c'']\<rparr>)
   \<and> ''void g(void) { int x; y = 5; }'' ! 19 = CHR ''x''
   \<and> ''void g(void) { int x; y = 5; }'' ! 22 = CHR ''y''
   \<and> \<not> location_le \<lparr>loc_file = Some ''t.c'', loc_line = 1, loc_column = 23\<rparr>
          \<lparr>loc_file = Some ''t.c'', loc_line = 1, loc_column = 20\<rparr>"
  by (simp add: order_report order_source_def msg_undeclared_def msg_unused_def quoted_def
      location_le_def)

text \<open>
  Claim C8, amended. When preprocessing succeeds and \<open>clang_analysis\<close> returns, the report
  is: the diagnostics of \<open>check_code\<close> in the order it returned them, then the diagnostics
  \<open>clang_analysis\<close> returned in their order, each block replaced by a line saying that
  nothing was found when it is empty. Nothing is sorted by location and nothing is
  dropped. The printed lines are determined by the two lists: a run with the same two
  lists prints the same lines in the same order.
\<close>

theorem report_is_concatenation:
  assumes "subprocess_run e (clang_argv c_file (Some include_dirs)) = Completed code"
    and "clang_analysis e c_file = Inr found"
  shows "analyze_code e c_file w =
    (Inr (),
     w\<lparr>stdout := stdout w
          @ [''Analyzing: '' @ c_file @ [CHR 0x0A],
             ''Preprocessing code for pycparser...'',
             ''pycparser Analysis:'']
          @ (if check_code e code = [] then [''No issues found by pycparser.'']
             else check_code e code)
          @ [CHR 0x0A # ''Clang Analysis:'']
          @ (if found = [] then [''No issues found by Clang.''] else found)
          @ [CHR 0x0A # ''Analysis Complete.'' @ [CHR 0x0A]],
       invoked := invoked w
          @ [Preprocess_code c_file (Some include_dirs), Check_code code,
             Clang_analysis c_file]\<rparr>)
    \<and> (subprocess_run e' (clang_argv c_file (Some include_dirs)) = Completed code'
         \<and> check_code e' code' = check_code e code
         \<and> clang_analysis e' c_file = Inr found
         \<longrightarrow> stdout (snd (analyze_code e' c_file w)) = stdout (snd (analyze_code e c_file w)))"
proof -
  have report: "analyze_code env c_file w =
    (Inr (),
     w\<lparr>stdout := stdout w
          @ [''Analyzing: '' @ c_file @ [CHR 0x0A],
             ''Preprocessing code for pycparser...'',
             ''pycparser Analysis:'']
          @ (if check_code env src = [] then [''No issues found by pycparser.'']
             else check_code env src)
          @ [CHR 0x0A # ''Clang Analysis:'']
          @ (if found = [] then [''No issues found by Clang.''] else found)
          @ [CHR 0x0A # ''Analysis Complete.'' @ [CHR 0x0A]],
       invoked := invoked w
          @ [Preprocess_code c_file (Some include_dirs), Check_code src,
             Clang_analysis c_file]\<rparr>)"
    if "subprocess_run env (clang_argv c_file (Some include_dirs)) = Completed src"
      and "clang_analysis env c_file = Inr found" for env src
    using that
    by (simp add: analyze_code_def preprocess_code_def Let_def print_all_stdout print_def
        invoke_def)
  show ?thesis
    using assms by (simp add: report)
qed

theorem report_is_concatenation_witness:
  "subprocess_run order_env (clang_argv ''t.c'' (Some include_dirs)) = Completed order_source
   \<and> clang_analysis order_env ''t.c'' = Inr []
   \<and> analyze_code order_env ''t.c'' new_world =
      (Inr (),
       \<lparr>stdout =
          [''Analyzing: t.c'' @ [CHR 0x0A],
           ''Preprocessing code for pycparser...'',
           ''pycparser Analysis:'',
           msg_undeclared ''y'',
           msg_unused (Some ''x''),
           CHR 0x0A # ''Clang Analysis:'',
           ''No issues found by Clang.'',
           CHR 0x0A # ''Analysis Complete.'' @ [CHR 0x0A]],
        invoked =
          [Preprocess_code ''t.c'' (Some include_dirs), Check_code order_source,
           Clang_analysis ''t.c'']\<rparr>)"
proof -
  have 1: "subprocess_run order_env (clang_argv ''t.c'' (Some include_dirs))
      = Completed order_source"
    by (simp add: order_env_def)
  have 2: "clang_analysis order_env ''t.c'' = Inr []"
    by (simp add: order_env_def clang_analysis_resolved_unit)
  have 3: "check_code order_env order_source = [msg_undeclared ''y'', msg_unused (Some ''x'')]"
    by (simp add: order_env_def check_code_sample frames_samples check_order)
  show ?thesis
    using report_is_concatenation [OF 1 2, of new_world order_env order_source]
    by (simp add: 1 2 3 new_world_def)
qed

subsection \<open>C5: \<open>libclang\<close> cannot be invoked\<close>

text \<open>
  Claim C5 is what the code misses. \<open>clang_analysis\<close> of \<open>analyze_new.py\<close> calls
  \<open>libclang\<close> outside any \<open>try\<close>, and so does \<open>analyze_code\<close>: when \<open>libclang\<close> raises,
  the exception leaves \<open>analyze_code\<close> after the internal diagnostics have been printed.
  No external diagnostic is printed, but neither is a note that the external tool was
  unavailable nor the closing line, and the run does not complete. The sibling
  \<open>clang_analysis\<close> of \<open>test2.py\<close> catches the exception and prints a note
  (\<open>test2_clang_analysis_catches\<close>), as \<open>preprocess_code\<close> and \<open>check_code\<close> do for their
  collaborators.
\<close>

theorem external_failure_aborts_run:
  assumes "subprocess_run e (clang_argv c_file (Some include_dirs)) = Completed code"
    and "index_parse e c_file [''-Wall'', ''-fsyntax-only''] = Inl exn"
  shows "analyze_code e c_file w =
    (Inl exn,
     w\<lparr>stdout := stdout w
          @ [''Analyzing: '' @ c_file @ [CHR 0x0A],
             ''Preprocessing code for pycparser...'',
             ''pycparser Analysis:'']
          @ (if check_code e code = [] then [''No issues found by pycparser.'']
             else check_code e code)
          @ [CHR 0x0A # ''Clang Analysis:''],
       invoked := invoked w
          @ [Preprocess_code c_file (Some include_dirs), Check_code code,
             Clang_analysis c_file]\<rparr>)"
  using assms
  by (simp add: analyze_code_def preprocess_code_def clang_analysis_def Let_def print_all_stdout
      print_def invoke_def)

theorem external_failure_aborts_run_witness:
  "subprocess_run no_libclang_env (clang_argv ''t.c'' (Some include_dirs))
     = Completed ''void g(void) { y = 5; }''
   \<and> index_parse no_libclang_env ''t.c'' [''-Wall'', ''-fsyntax-only'']
     = Inl ''libclang.dll: cannot open shared object''
   \<and> analyze_code no_libclang_env ''t.c'' new_world =
      (Inl ''libclang.dll: cannot open shared object'',
       \<lparr>stdout =
          [''Analyzing: t.c'' @ [CHR 0x0A],
           ''Preprocessing code for pycparser...'',
           ''pycparser Analysis:'',
           msg_undeclared ''y'',
           CHR 0x0A # ''Clang Analysis:''],
        invoked =
          [Preprocess_code ''t.c'' (Some include_dirs), Check_code ''void g(void) { y = 5; }'',
           Clang_analysis ''t.c'']\<rparr>)"
proof -
  have 1: "subprocess_run no_libclang_env (clang_argv ''t.c'' (Some include_dirs))
     = Completed ''void g(void) { y = 5; }''"
    by (simp add: no_libclang_env_def)
  have 2: "index_parse no_libclang_env ''t.c'' [''-Wall'', ''-fsyntax-only'']
     = Inl ''libclang.dll: cannot open shared object''"
    by (simp add: no_libclang_env_def)
  have 3: "check_code no_libclang_env ''void g(void) { y = 5; }'' = [msg_undeclared ''y'']"
    by (simp add: no_libclang_env_def check_code_sample frames_samples check_scenario_C)
  show ?thesis
    using external_failure_aborts_run [OF 1 2, of new_world]
    by (simp add: 1 2 3 new_world_def)
qed

end
